theory Spec2Isabelle
  imports Main "HOL-Library.Word" "HOL-Library.Sublist"
begin

section \<open>Decoded JSON values\<close>

text \<open>
  \<^verbatim>\<open>encoding/json\<close> decodes into the interface type \<^verbatim>\<open>any\<close> with exactly these dynamic types:
  \<^verbatim>\<open>nil\<close>, \<^verbatim>\<open>bool\<close>, \<^verbatim>\<open>float64\<close>, \<^verbatim>\<open>string\<close>, \<^verbatim>\<open>[]any\<close> and \<^verbatim>\<open>map[string]any\<close>.
  A \<^verbatim>\<open>float64\<close> is kept as its 64 bits; the helpers never look inside a number.
  A Go map is a finite partial function from keys to values.
\<close>

datatype any =
    ANil
  | ABool bool
  | AFloat64 "64 word"
  | AString string
  | ASlice "any list"
  | AMap "string \<Rightarrow> any option"

type_synonym object = "string \<Rightarrow> any option"

text \<open>\<^verbatim>\<open>m[k]\<close> on a \<^verbatim>\<open>map[string]any\<close>: the zero value \<^verbatim>\<open>nil\<close> when the key is absent
  (also when the map itself is nil).\<close>

definition index :: "object \<Rightarrow> string \<Rightarrow> any" where
  "index m k = (case m k of None \<Rightarrow> ANil | Some v \<Rightarrow> v)"

text \<open>The comma-ok type assertions \<^verbatim>\<open>v.(string)\<close> and \<^verbatim>\<open>v.([]any)\<close>: \<open>None\<close> is \<^verbatim>\<open>ok == false\<close>.
  The comma-ok form never panics.\<close>

fun assert_string :: "any \<Rightarrow> string option" where
  "assert_string (AString s) = Some s"
| "assert_string _ = None"

fun assert_slice :: "any \<Rightarrow> any list option" where
  "assert_slice (ASlice xs) = Some xs"
| "assert_slice _ = None"

section \<open>Errors\<close>

text \<open>
  The Go \<^verbatim>\<open>error\<close> values the helpers return. \<open>'e\<close> is the type of the errors made outside
  this file (by the client and by \<^verbatim>\<open>json.Unmarshal\<close>).
  \<^item> \<open>Propagated err\<close>: \<^verbatim>\<open>return "", err\<close>, the outside error itself;
  \<^item> \<open>Wrapped msg err\<close>: \<^verbatim>\<open>fmt.Errorf(msg + "%w", err)\<close>, the text before the verb and the
    wrapped operand;
  \<^item> \<open>ErrorText s\<close>: \<^verbatim>\<open>fmt.Errorf\<close> whose operands are strings under \<^verbatim>\<open>%s\<close>, fully rendered;
  \<^item> \<open>ErrorValue msg w\<close>: \<^verbatim>\<open>fmt.Errorf(msg + "%v", w)\<close>, the text before the verb and the
    operand that \<^verbatim>\<open>%v\<close> renders (the rendering itself belongs to \<^verbatim>\<open>fmt\<close>).
\<close>

datatype 'e error =
    Propagated 'e
  | Wrapped string 'e
  | ErrorText string
  | ErrorValue string object

text \<open>\<^verbatim>\<open>errors.Unwrap\<close>: only an error built with \<^verbatim>\<open>%w\<close> has a cause.\<close>

fun Unwrap :: "'e error \<Rightarrow> 'e option" where
  "Unwrap (Wrapped msg err) = Some err"
| "Unwrap _ = None"

section \<open>The collaborators\<close>

text \<open>
  \<^verbatim>\<open>p.proxmoxClient\<close> is given: \<open>Get path\<close> and \<open>Post path params\<close> return the error of the
  call or the raw body stored through the \<^verbatim>\<open>json.RawMessage\<close> pointer.  \<^verbatim>\<open>json.Unmarshal\<close> is given
  at the two target types the helpers use: \<^verbatim>\<open>[]map[string]any\<close> and \<^verbatim>\<open>map[string]any\<close>.
\<close>

record 'e proxmoxClient =
  Get :: "string \<Rightarrow> 'e + string"
  Post :: "string \<Rightarrow> (string \<Rightarrow> string option) \<Rightarrow> 'e + string"

record 'e json =
  Unmarshal_items :: "string \<Rightarrow> 'e + object list"
  Unmarshal_wrapper :: "string \<Rightarrow> 'e + object"

section \<open>findISOStorageName\<close>

text \<open>Lines 30-35: the storage name is under \<^verbatim>\<open>"storage"\<close> or \<^verbatim>\<open>"name"\<close>; the zero value
  of \<^verbatim>\<open>var name string\<close> is the empty string.\<close>

definition item_name :: "object \<Rightarrow> string" where
  "item_name item =
     (case assert_string (index item ''storage'') of
        Some s \<Rightarrow> s
      | None \<Rightarrow>
          (case assert_string (index item ''name'') of
             Some s \<Rightarrow> s
           | None \<Rightarrow> ''''))"

text \<open>Lines 43-47: the loop over \<^verbatim>\<open>content\<close>; \<open>True\<close> is the \<^verbatim>\<open>return name, nil\<close> inside it.\<close>

fun content_loop :: "any list \<Rightarrow> bool" where
  "content_loop [] = False"
| "content_loop (c # content) =
     (if assert_string c = Some ''iso'' then True else content_loop content)"

text \<open>Lines 42-48: the check of \<^verbatim>\<open>item["content"]\<close>; \<open>True\<close> is reaching \<^verbatim>\<open>return name, nil\<close>.\<close>

definition content_check :: "object \<Rightarrow> bool" where
  "content_check item =
     (case assert_slice (index item ''content'') of
        Some content \<Rightarrow> content_loop content
      | None \<Rightarrow> False)"

text \<open>Lines 28-49: the loop over \<^verbatim>\<open>items\<close>; \<open>Some name\<close> is \<^verbatim>\<open>return name, nil\<close>, \<open>None\<close>
  is falling out of the loop.\<close>

fun items_loop :: "object list \<Rightarrow> string option" where
  "items_loop [] = None"
| "items_loop (item # items) =
     (let name = item_name item in
      if name = '''' then items_loop items
      else if content_check item then Some name
      else items_loop items)"

definition findISOStorageName ::
  "'e proxmoxClient \<Rightarrow> 'e json \<Rightarrow> string \<Rightarrow> 'e error + string" where
  "findISOStorageName client js node =
     (case Get client (''/nodes/'' @ node @ ''/storage'') of
        Inl err \<Rightarrow> Inl (Propagated err)
      | Inr raw \<Rightarrow>
          (case Unmarshal_items js raw of
             Inl err \<Rightarrow> Inl (Wrapped ''failed to parse storage list: '' err)
           | Inr items \<Rightarrow>
               (case items_loop items of
                  Some name \<Rightarrow> Inr name
                | None \<Rightarrow> Inl (ErrorText (''no ISO-capable storage found on node '' @ node)))))"

section \<open>storageHasISO\<close>

text \<open>\<^verbatim>\<open>strings.HasSuffix(s, suffix)\<close>, as the Go library defines it:
  \<^verbatim>\<open>len(s) >= len(suffix) && s[len(s)-len(suffix):] == suffix\<close>.\<close>

definition HasSuffix :: "string \<Rightarrow> string \<Rightarrow> bool" where
  "HasSuffix s suf \<longleftrightarrow> length s \<ge> length suf \<and> drop (length s - length suf) s = suf"

text \<open>Lines 67-79: the loop over \<^verbatim>\<open>items\<close>; \<open>True\<close> is either \<^verbatim>\<open>return true, nil\<close>, \<open>False\<close>
  is falling out of the loop.\<close>

fun iso_loop :: "string \<Rightarrow> object list \<Rightarrow> bool" where
  "iso_loop isoName [] = False"
| "iso_loop isoName (it # items) =
     (if (case assert_string (index it ''volid'') of
            Some v \<Rightarrow> HasSuffix v isoName \<or> v = isoName
          | None \<Rightarrow> False)
      then True
      else if (case assert_string (index it ''name'') of
                 Some n \<Rightarrow> n = isoName
               | None \<Rightarrow> False)
      then True
      else iso_loop isoName items)"

definition storageHasISO ::
  "'e proxmoxClient \<Rightarrow> 'e json \<Rightarrow> string \<Rightarrow> string \<Rightarrow> string \<Rightarrow> 'e error + bool" where
  "storageHasISO client js node storage isoName =
     (case Get client (''/nodes/'' @ node @ ''/storage/'' @ storage @ ''/content'') of
        Inl err \<Rightarrow> Inl (Propagated err)
      | Inr raw \<Rightarrow>
          (case Unmarshal_items js raw of
             Inl err \<Rightarrow> Inl (Wrapped ''failed to parse storage content: '' err)
           | Inr items \<Rightarrow> Inr (iso_loop isoName items)))"

section \<open>startStorageDownload\<close>

text \<open>Lines 107-116: the comma-ok lookup of \<^verbatim>\<open>"data"\<close> and the type switch on it; \<open>None\<close> is
  reaching line 118.\<close>

definition data_upid :: "object \<Rightarrow> string option" where
  "data_upid wrapper =
     (case wrapper ''data'' of
        None \<Rightarrow> None
      | Some d \<Rightarrow>
          (case d of
             AString v \<Rightarrow> Some v
           | AMap v \<Rightarrow> assert_string (index v ''upid'')
           | _ \<Rightarrow> None))"

definition startStorageDownload ::
  "'e proxmoxClient \<Rightarrow> 'e json \<Rightarrow> string \<Rightarrow> string \<Rightarrow> string \<Rightarrow> string \<Rightarrow> 'e error + string" where
  "startStorageDownload client js node storage isoName sourceURL =
     (let params = [''content'' \<mapsto> ''iso'', ''filename'' \<mapsto> isoName, ''url'' \<mapsto> sourceURL];
          path = ''/nodes/'' @ node @ ''/storage/'' @ storage @ ''/download''
      in case Post client path params of
           Inl err \<Rightarrow> Inl (Propagated err)
         | Inr resp \<Rightarrow>
             (case Unmarshal_wrapper js resp of
                Inl err \<Rightarrow> Inl (Wrapped ''failed to parse download response: '' err)
              | Inr wrapper \<Rightarrow>
                  (case data_upid wrapper of
                     Some upid \<Rightarrow> Inr upid
                   | None \<Rightarrow> Inl (ErrorValue ''unexpected download response: '' wrapper))))"

section \<open>The properties, as the specification words them\<close>

text \<open>A record advertises ISO support when its \<^verbatim>\<open>content\<close> field is an array with the
  string \<^verbatim>\<open>"iso"\<close> among its elements.\<close>

definition advertises_iso :: "object \<Rightarrow> bool" where
  "advertises_iso item =
     (case item ''content'' of
        Some (ASlice content) \<Rightarrow> AString ''iso'' \<in> set content
      | _ \<Rightarrow> False)"

text \<open>The specification's candidate name: the first non-empty of the \<^verbatim>\<open>storage\<close> field, then
  the \<^verbatim>\<open>name\<close> field (a field that is absent or not a string counts as empty).\<close>

definition field_text :: "object \<Rightarrow> string \<Rightarrow> string" where
  "field_text item k = (case item k of Some (AString s) \<Rightarrow> s | _ \<Rightarrow> [])"

definition spec_candidate :: "object \<Rightarrow> string" where
  "spec_candidate item =
     (if field_text item ''storage'' \<noteq> [] then field_text item ''storage''
      else field_text item ''name'')"

text \<open>The two match rules of the presence check.\<close>

definition volid_rule :: "string \<Rightarrow> object \<Rightarrow> bool" where
  "volid_rule isoName it =
     (case it ''volid'' of
        Some (AString v) \<Rightarrow> v = isoName \<or> suffix isoName v
      | _ \<Rightarrow> False)"

definition name_rule :: "string \<Rightarrow> object \<Rightarrow> bool" where
  "name_rule isoName it =
     (case it ''name'' of
        Some (AString n) \<Rightarrow> n = isoName
      | _ \<Rightarrow> False)"

text \<open>Fixed collaborators for concrete runs: a client that answers every call with one
  body (or fails every call with one error), and a decoder that returns one listing and
  one wrapper (or fails every body with one error).\<close>

definition answering :: "string \<Rightarrow> string proxmoxClient" where
  "answering body = \<lparr>Get = (\<lambda>path. Inr body), Post = (\<lambda>path params. Inr body)\<rparr>"

definition failing :: "string \<Rightarrow> string proxmoxClient" where
  "failing err = \<lparr>Get = (\<lambda>path. Inl err), Post = (\<lambda>path params. Inl err)\<rparr>"

definition decoding :: "object list \<Rightarrow> object \<Rightarrow> string json" where
  "decoding items wrapper =
     \<lparr>Unmarshal_items = (\<lambda>raw. Inr items), Unmarshal_wrapper = (\<lambda>raw. Inr wrapper)\<rparr>"

definition rejecting :: "string \<Rightarrow> string json" where
  "rejecting err = \<lparr>Unmarshal_items = (\<lambda>raw. Inl err), Unmarshal_wrapper = (\<lambda>raw. Inl err)\<rparr>"

text \<open>Concrete records for the runs below: storage descriptors and content entries.\<close>

definition nameless_item :: object where
  "nameless_item = [''content'' \<mapsto> ASlice [AString ''iso'']]"

definition local_item :: object where
  "local_item = [''storage'' \<mapsto> AString ''local'', ''content'' \<mapsto> ASlice [AString ''iso'']]"

definition nfs_item :: object where
  "nfs_item = [''name'' \<mapsto> AString ''nfs'',
               ''content'' \<mapsto> ASlice [AFloat64 0, AString ''images'', AString ''iso'']]"

definition lvm_item :: object where
  "lvm_item = [''storage'' \<mapsto> AString ''lvm'', ''content'' \<mapsto> ASlice [AString ''images'']]"

definition empty_storage_item :: object where
  "empty_storage_item =
     [''storage'' \<mapsto> AString [], ''name'' \<mapsto> AString ''local'',
      ''content'' \<mapsto> ASlice [AString ''iso'']]"

definition ubuntu_entry :: object where
  "ubuntu_entry = [''volid'' \<mapsto> AString ''local:iso/ubuntu.iso'']"

definition debian_entry :: object where
  "debian_entry = [''name'' \<mapsto> AString ''debian.iso'', ''size'' \<mapsto> AFloat64 1]"

section \<open>The loops, characterised\<close>

lemma content_loop_iff: "content_loop content \<longleftrightarrow> AString ''iso'' \<in> set content"
proof (induction content)
  case Nil
  show ?case by simp
next
  case (Cons c content)
  show ?case by (cases c) (simp_all add: Cons.IH)
qed

lemma content_check_advertises: "content_check item = advertises_iso item"
proof (cases "item ''content''")
  case None
  then show ?thesis by (simp add: content_check_def index_def advertises_iso_def)
next
  case (Some v)
  then show ?thesis
    by (cases v) (simp_all add: content_check_def index_def advertises_iso_def content_loop_iff)
qed

lemma items_loop_step:
  "items_loop (item # rest) =
     (if item_name item \<noteq> [] \<and> advertises_iso item then Some (item_name item)
      else items_loop rest)"
  by (simp add: Let_def content_check_advertises)

lemma items_loop_none:
  "(\<forall>item \<in> set items. \<not> (item_name item \<noteq> [] \<and> advertises_iso item)) \<Longrightarrow>
     items_loop items = None"
proof (induction items)
  case Nil
  show ?case by simp
next
  case (Cons item items)
  then show ?case by (simp only: items_loop_step) auto
qed

lemma items_loop_first:
  assumes "\<forall>item \<in> set pre. \<not> (item_name item \<noteq> [] \<and> advertises_iso item)"
    and "item_name q \<noteq> []" and "advertises_iso q"
  shows "items_loop (pre @ q # post) = Some (item_name q)"
  using assms
proof (induction pre)
  case Nil
  then show ?case by (simp only: items_loop_step append_Nil) simp
next
  case (Cons p pre)
  then show ?case by (simp only: items_loop_step append_Cons) auto
qed

lemma HasSuffix_suffix: "HasSuffix s suf \<longleftrightarrow> suffix suf s"
proof
  assume "HasSuffix s suf"
  then have "s = take (length s - length suf) s @ suf"
    by (metis HasSuffix_def append_take_drop_id)
  then show "suffix suf s" by (metis suffixI)
next
  assume "suffix suf s"
  then obtain p where "s = p @ suf" by (auto simp: suffix_def)
  then show "HasSuffix s suf" by (simp add: HasSuffix_def)
qed

lemma volid_test:
  "(case assert_string (index it ''volid'') of
      Some v \<Rightarrow> HasSuffix v isoName \<or> v = isoName
    | None \<Rightarrow> False) = volid_rule isoName it"
proof (cases "it ''volid''")
  case None
  then show ?thesis by (simp add: index_def volid_rule_def)
next
  case (Some a)
  then show ?thesis by (cases a) (auto simp: index_def volid_rule_def HasSuffix_suffix)
qed

lemma name_test:
  "(case assert_string (index it ''name'') of
      Some n \<Rightarrow> n = isoName
    | None \<Rightarrow> False) = name_rule isoName it"
proof (cases "it ''name''")
  case None
  then show ?thesis by (simp add: index_def name_rule_def)
next
  case (Some a)
  then show ?thesis by (cases a) (auto simp: index_def name_rule_def)
qed

lemma iso_loop_step:
  "iso_loop isoName (it # rest) =
     (if volid_rule isoName it then True
      else if name_rule isoName it then True
      else iso_loop isoName rest)"
  by (simp only: iso_loop.simps volid_test name_test)

lemma iso_loop_iff:
  "iso_loop isoName items \<longleftrightarrow>
     (\<exists>it \<in> set items. volid_rule isoName it \<or> name_rule isoName it)"
proof (induction items)
  case Nil
  show ?case by simp
next
  case (Cons it items)
  show ?case by (simp only: iso_loop_step Cons.IH) auto
qed

section \<open>Storage discovery\<close>

text \<open>
  C1 (as stated): for a listing with more than one entry whose \<^verbatim>\<open>content\<close> array contains
  \<^verbatim>\<open>"iso"\<close>, the name of the first such entry is returned, never that of a later one.
  Refuted: the first such entry of \<open>[nameless_item, local_item]\<close> has no name, line 37
  passes over it, and the name of the second is returned.
\<close>

theorem first_iso_entry_counterexample:
  "1 < length (filter advertises_iso [nameless_item, local_item]) \<and>
   hd (filter advertises_iso [nameless_item, local_item]) = nameless_item \<and>
   item_name nameless_item = [] \<and>
   item_name local_item = ''local'' \<and>
   findISOStorageName (answering ''body'') (decoding [nameless_item, local_item] Map.empty) ''pve''
     = Inr ''local''"
proof -
  have a: "advertises_iso nameless_item" "advertises_iso local_item"
    by (simp_all add: advertises_iso_def nameless_item_def local_item_def)
  have n: "item_name nameless_item = []" "item_name local_item = ''local''"
    by (simp_all add: item_name_def index_def nameless_item_def local_item_def)
  have "items_loop [nameless_item, local_item] = Some ''local''"
    unfolding items_loop_step by (simp add: a n)
  then show ?thesis
    by (simp add: a n findISOStorageName_def answering_def decoding_def)
qed

text \<open>
  C1 (amended): for every decoded storage listing, \<open>findISOStorageName\<close> returns the name of
  the first entry, in listing order, that has a non-empty candidate name and whose
  \<^verbatim>\<open>content\<close> array contains \<^verbatim>\<open>"iso"\<close>, whatever follows it in the listing.
\<close>

theorem first_named_iso_entry:
  assumes "Get client (''/nodes/'' @ node @ ''/storage'') = Inr raw"
    and "Unmarshal_items js raw = Inr (pre @ q # post)"
    and "\<forall>item \<in> set pre. \<not> (item_name item \<noteq> [] \<and> advertises_iso item)"
    and "item_name q \<noteq> []" and "advertises_iso q"
  shows "findISOStorageName client js node = Inr (item_name q)"
  using assms(1,2) items_loop_first [OF assms(3,4,5), of post]
  by (simp add: findISOStorageName_def)

theorem first_named_iso_entry_witness:
  "Get (answering ''body'') (''/nodes/'' @ ''pve'' @ ''/storage'') = Inr ''body'' \<and>
   Unmarshal_items (decoding ([lvm_item, nameless_item] @ nfs_item # [local_item]) Map.empty) ''body''
     = Inr ([lvm_item, nameless_item] @ nfs_item # [local_item]) \<and>
   \<not> (item_name lvm_item \<noteq> [] \<and> advertises_iso lvm_item) \<and>
   \<not> (item_name nameless_item \<noteq> [] \<and> advertises_iso nameless_item) \<and>
   item_name nfs_item = ''nfs'' \<and> advertises_iso nfs_item \<and> advertises_iso local_item \<and>
   findISOStorageName (answering ''body'')
       (decoding ([lvm_item, nameless_item] @ nfs_item # [local_item]) Map.empty) ''pve''
     = Inr ''nfs''"
proof -
  have g: "Get (answering ''body'') (''/nodes/'' @ ''pve'' @ ''/storage'') = Inr ''body''"
    by (simp add: answering_def)
  have u: "Unmarshal_items (decoding ([lvm_item, nameless_item] @ nfs_item # [local_item]) Map.empty)
             ''body'' = Inr ([lvm_item, nameless_item] @ nfs_item # [local_item])"
    by (simp add: decoding_def)
  have p: "\<forall>item \<in> set [lvm_item, nameless_item]. \<not> (item_name item \<noteq> [] \<and> advertises_iso item)"
    by (simp add: item_name_def index_def advertises_iso_def lvm_item_def nameless_item_def)
  have q: "item_name nfs_item \<noteq> []" "advertises_iso nfs_item"
    by (simp_all add: item_name_def index_def advertises_iso_def nfs_item_def)
  have r: "item_name nfs_item = ''nfs''" "advertises_iso local_item"
    by (simp_all add: item_name_def index_def advertises_iso_def nfs_item_def local_item_def)
  from first_named_iso_entry [OF g u p q]
  show ?thesis using g u p q r by simp
qed

text \<open>
  C4 (as stated): the candidate name is the first non-empty of the \<^verbatim>\<open>storage\<close> field then the
  \<^verbatim>\<open>name\<close> field; in particular a record whose \<^verbatim>\<open>storage\<close> is the empty string and whose
  \<^verbatim>\<open>name\<close> is a non-empty string gets that name.
  Refuted: for \<open>empty_storage_item\<close> the assertion on line 31 succeeds with the empty string,
  the \<^verbatim>\<open>else if\<close> on line 33 is not reached, and line 37 skips the record.
\<close>

theorem empty_storage_counterexample:
  "empty_storage_item ''storage'' = Some (AString []) \<and>
   empty_storage_item ''name'' = Some (AString ''local'') \<and>
   spec_candidate empty_storage_item = ''local'' \<and>
   item_name empty_storage_item = [] \<and>
   advertises_iso empty_storage_item \<and>
   findISOStorageName (answering ''body'') (decoding [empty_storage_item] Map.empty) ''pve''
     = Inl (ErrorText ''no ISO-capable storage found on node pve'')"
proof -
  have n: "item_name empty_storage_item = []"
    by (simp add: item_name_def index_def empty_storage_item_def)
  have "items_loop [empty_storage_item] = None"
    unfolding items_loop_step by (simp add: n)
  then show ?thesis
    by (simp add: n findISOStorageName_def answering_def decoding_def)
      (simp add: empty_storage_item_def spec_candidate_def field_text_def advertises_iso_def)
qed

text \<open>
  C4 (amended): for every record, the candidate name is the \<^verbatim>\<open>storage\<close> field whenever that
  field is a string, empty or not, and otherwise the \<^verbatim>\<open>name\<close> field when that is a string,
  and otherwise empty.  The candidate is therefore the first non-empty of \<^verbatim>\<open>storage\<close> then
  \<^verbatim>\<open>name\<close> unless \<^verbatim>\<open>storage\<close> is the empty string.  The record is skipped for its name
  if and only if the candidate is empty, that is, only when both fields are absent or empty
  or the \<^verbatim>\<open>storage\<close> field is the empty string (whatever \<^verbatim>\<open>name\<close> holds then); a record with
  a non-empty candidate is never skipped for its name: it goes to the content check and is
  returned under its candidate when that check passes.
\<close>

theorem candidate_name_by_type:
  "(item ''storage'' = Some (AString s) \<longrightarrow> item_name item = s) \<and>
   ((\<forall>t. item ''storage'' \<noteq> Some (AString t)) \<longrightarrow> item_name item = field_text item ''name'') \<and>
   (item ''storage'' \<noteq> Some (AString []) \<longrightarrow> item_name item = spec_candidate item) \<and>
   (item ''storage'' = Some (AString []) \<longrightarrow> item_name item = []) \<and>
   (item_name item = [] \<longleftrightarrow>
      spec_candidate item = [] \<or> item ''storage'' = Some (AString [])) \<and>
   (item_name item = [] \<longrightarrow> items_loop (item # rest) = items_loop rest) \<and>
   (item_name item \<noteq> [] \<longrightarrow>
      items_loop (item # rest) =
        (if content_check item then Some (item_name item) else items_loop rest))"
proof -
  have typed: "item ''storage'' = Some (AString s) \<longrightarrow> item_name item = s" for s
    by (simp add: item_name_def index_def)
  have untyped: "item_name item = field_text item ''name''"
    if "\<forall>t. item ''storage'' \<noteq> Some (AString t)"
  proof -
    have "assert_string (index item ''storage'') = None"
    proof (cases "item ''storage''")
      case None
      then show ?thesis by (simp add: index_def)
    next
      case (Some v)
      with that show ?thesis by (cases v) (simp_all add: index_def)
    qed
    moreover have "(case assert_string (index item ''name'') of Some s \<Rightarrow> s | None \<Rightarrow> [])
                     = field_text item ''name''"
    proof (cases "item ''name''")
      case None
      then show ?thesis by (simp add: index_def field_text_def)
    next
      case (Some v)
      then show ?thesis by (cases v) (simp_all add: index_def field_text_def)
    qed
    ultimately show ?thesis by (simp add: item_name_def)
  qed
  have spec: "item_name item = spec_candidate item" if ne: "item ''storage'' \<noteq> Some (AString [])"
  proof (cases "\<exists>t. item ''storage'' = Some (AString t)")
    case True
    then obtain t where t: "item ''storage'' = Some (AString t)" by blast
    with ne have "t \<noteq> []" by auto
    with t typed [of t] show ?thesis by (simp add: spec_candidate_def field_text_def)
  next
    case False
    then have no: "\<forall>t. item ''storage'' \<noteq> Some (AString t)" by blast
    have "field_text item ''storage'' = []"
    proof (cases "item ''storage''")
      case None
      then show ?thesis by (simp add: field_text_def)
    next
      case (Some v)
      with no show ?thesis by (cases v) (simp_all add: field_text_def)
    qed
    with untyped [OF no] show ?thesis by (simp add: spec_candidate_def)
  qed
  have empty: "item_name item = [] \<longleftrightarrow>
                 spec_candidate item = [] \<or> item ''storage'' = Some (AString [])"
  proof (cases "item ''storage'' = Some (AString [])")
    case True
    with typed [of "[]"] show ?thesis by simp
  next
    case False
    with spec show ?thesis by simp
  qed
  have skip: "item_name item = [] \<longrightarrow> items_loop (item # rest) = items_loop rest"
    by (simp add: Let_def)
  have keep: "item_name item \<noteq> [] \<longrightarrow>
                items_loop (item # rest) =
                  (if content_check item then Some (item_name item) else items_loop rest)"
    by (simp add: Let_def)
  from typed [of s] untyped spec typed [of "[]"] empty skip keep show ?thesis by blast
qed

theorem candidate_name_by_type_witness:
  "local_item ''storage'' = Some (AString ''local'') \<and> item_name local_item = ''local'' \<and>
   (\<forall>t. nfs_item ''storage'' \<noteq> Some (AString t)) \<and> item_name nfs_item = ''nfs'' \<and>
   nfs_item ''storage'' \<noteq> Some (AString []) \<and> spec_candidate nfs_item = ''nfs'' \<and>
   empty_storage_item ''storage'' = Some (AString []) \<and> item_name empty_storage_item = [] \<and>
   spec_candidate empty_storage_item \<noteq> [] \<and>
   spec_candidate lvm_item \<noteq> [] \<and> item_name lvm_item \<noteq> [] \<and>
   content_check local_item \<and> content_check nfs_item \<and> \<not> content_check lvm_item \<and>
   items_loop [nfs_item] = Some ''nfs'' \<and>
   items_loop (local_item # [nfs_item]) = Some ''local'' \<and>
   items_loop (lvm_item # [nfs_item]) = Some ''nfs'' \<and>
   items_loop (empty_storage_item # [local_item, nfs_item]) = Some ''local''"
proof -
  have a: "local_item ''storage'' = Some (AString ''local'')"
    by (simp add: local_item_def)
  have b: "\<forall>t. nfs_item ''storage'' \<noteq> Some (AString t)" "nfs_item ''storage'' \<noteq> Some (AString [])"
    by (simp_all add: nfs_item_def)
  have c: "empty_storage_item ''storage'' = Some (AString [])"
    by (simp add: empty_storage_item_def)
  have d: "lvm_item ''storage'' = Some (AString ''lvm'')"
    by (simp add: lvm_item_def)
  have f: "field_text nfs_item ''name'' = ''nfs''"
    "spec_candidate empty_storage_item \<noteq> []" "spec_candidate lvm_item \<noteq> []"
    by (simp_all add: nfs_item_def empty_storage_item_def lvm_item_def
        field_text_def spec_candidate_def)
  have k: "content_check local_item" "content_check nfs_item" "\<not> content_check lvm_item"
    by (simp_all add: content_check_def index_def local_item_def nfs_item_def lvm_item_def)
  note t = candidate_name_by_type
  have n: "item_name local_item = ''local''" "item_name nfs_item = ''nfs''"
    "item_name empty_storage_item = []" "item_name lvm_item = ''lvm''"
    "spec_candidate nfs_item = ''nfs''"
    using t [of local_item "''local''" "[]"] t [of nfs_item "[]" "[]"]
      t [of empty_storage_item "[]" "[]"] t [of lvm_item "''lvm''" "[]"] a b c d f
    by auto
  have l0: "items_loop [nfs_item] = Some ''nfs''"
    using t [of nfs_item "[]" "[]"] n k by simp
  have l1: "items_loop (local_item # [nfs_item]) = Some ''local''"
    using t [of local_item "[]" "[nfs_item]"] n k by simp
  have l2: "items_loop (lvm_item # [nfs_item]) = Some ''nfs''"
    using t [of lvm_item "[]" "[nfs_item]"] n k l0 by simp
  have l3: "items_loop (local_item # [nfs_item]) = Some ''local''
              \<Longrightarrow> items_loop (empty_storage_item # [local_item, nfs_item]) = Some ''local''"
    using t [of empty_storage_item "[]" "[local_item, nfs_item]"] n by simp
  show ?thesis
    using a b c f k n l0 l1 l2 l3 [OF l1] by simp
qed

text \<open>
  C6: for every decoded storage listing, empty or not, in which no record both yields a
  candidate name and advertises \<^verbatim>\<open>"iso"\<close> in its \<^verbatim>\<open>content\<close> array, \<open>findISOStorageName\<close>
  fails with the not-found error, whose message ends with the name of the queried node.
\<close>

theorem no_iso_storage_not_found:
  assumes "Get client (''/nodes/'' @ node @ ''/storage'') = Inr raw"
    and "Unmarshal_items js raw = Inr items"
    and "\<forall>item \<in> set items. \<not> (item_name item \<noteq> [] \<and> advertises_iso item)"
  shows "findISOStorageName client js node
           = Inl (ErrorText (''no ISO-capable storage found on node '' @ node))"
  using assms(1,2) items_loop_none [OF assms(3)]
  by (simp add: findISOStorageName_def)

theorem no_iso_storage_not_found_witness:
  "Get (answering ''body'') (''/nodes/'' @ ''pve'' @ ''/storage'') = Inr ''body'' \<and>
   Unmarshal_items (decoding [] Map.empty) ''body'' = Inr [] \<and>
   Unmarshal_items (decoding [lvm_item, nameless_item] Map.empty) ''body''
     = Inr [lvm_item, nameless_item] \<and>
   item_name lvm_item = ''lvm'' \<and> \<not> advertises_iso lvm_item \<and>
   item_name nameless_item = [] \<and> advertises_iso nameless_item \<and>
   findISOStorageName (answering ''body'') (decoding [] Map.empty) ''pve''
     = Inl (ErrorText ''no ISO-capable storage found on node pve'') \<and>
   findISOStorageName (answering ''body'') (decoding [lvm_item, nameless_item] Map.empty) ''pve''
     = Inl (ErrorText ''no ISO-capable storage found on node pve'')"
proof -
  have g: "Get (answering ''body'') (''/nodes/'' @ ''pve'' @ ''/storage'') = Inr ''body''"
    by (simp add: answering_def)
  have u0: "Unmarshal_items (decoding [] Map.empty) ''body'' = Inr []"
    by (simp add: decoding_def)
  have u2: "Unmarshal_items (decoding [lvm_item, nameless_item] Map.empty) ''body''
              = Inr [lvm_item, nameless_item]"
    by (simp add: decoding_def)
  have f: "item_name lvm_item = ''lvm''" "\<not> advertises_iso lvm_item"
    "item_name nameless_item = []" "advertises_iso nameless_item"
    by (simp_all add: item_name_def index_def advertises_iso_def lvm_item_def nameless_item_def)
  have p0: "\<forall>item \<in> set []. \<not> (item_name item \<noteq> [] \<and> advertises_iso item)"
    by simp
  have p2: "\<forall>item \<in> set [lvm_item, nameless_item]. \<not> (item_name item \<noteq> [] \<and> advertises_iso item)"
    by (simp add: f)
  from no_iso_storage_not_found [OF g u0 p0] no_iso_storage_not_found [OF g u2 p2]
  show ?thesis using g u0 u2 f by simp
qed

text \<open>
  C10: whatever the \<^verbatim>\<open>content\<close> field of a record holds (nothing, a value that is not an
  array, an array with elements that are not strings), the check of lines 42-48 has an
  outcome and no failure: every assertion there is the comma-ok form, an element that is not
  a string is passed over, and the record passes the check exactly when \<^verbatim>\<open>content\<close> is an
  array with the string \<^verbatim>\<open>"iso"\<close> among its elements.  The loop then either returns the
  record's name or goes on with the rest of the listing.
\<close>

theorem content_check_total:
  "(content_check item \<longleftrightarrow>
      (\<exists>content. item ''content'' = Some (ASlice content) \<and> AString ''iso'' \<in> set content)) \<and>
   content_loop (ANil # content') = content_loop content' \<and>
   content_loop (ABool b # content') = content_loop content' \<and>
   content_loop (AFloat64 w # content') = content_loop content' \<and>
   content_loop (ASlice xs # content') = content_loop content' \<and>
   content_loop (AMap m # content') = content_loop content' \<and>
   items_loop (item # rest) =
     (if item_name item = [] then items_loop rest
      else if content_check item then Some (item_name item)
      else items_loop rest)"
proof -
  have "advertises_iso item \<longleftrightarrow>
          (\<exists>content. item ''content'' = Some (ASlice content) \<and> AString ''iso'' \<in> set content)"
  proof (cases "item ''content''")
    case None
    then show ?thesis by (simp add: advertises_iso_def)
  next
    case (Some v)
    then show ?thesis by (cases v) (simp_all add: advertises_iso_def)
  qed
  then show ?thesis
    by (simp add: content_check_advertises Let_def)
qed

theorem content_check_total_witness:
  "\<not> content_check (Map.empty :: object) \<and>
   \<not> content_check [''content'' \<mapsto> AString ''iso''] \<and>
   \<not> content_check [''content'' \<mapsto> ASlice [AFloat64 0, AMap Map.empty, AString ''images'']] \<and>
   content_check [''content'' \<mapsto> ASlice [AFloat64 0, ANil, AString ''iso'']] \<and>
   items_loop [nfs_item] = Some ''nfs'' \<and>
   items_loop [[''storage'' \<mapsto> AString ''tank'', ''content'' \<mapsto> AString ''iso''], nfs_item]
     = Some ''nfs''"
proof -
  have e: "\<And>content. (Map.empty :: object) ''content'' \<noteq> Some (ASlice content)"
    by simp
  have n: "item_name nfs_item = ''nfs''"
    "item_name [''storage'' \<mapsto> AString ''tank'', ''content'' \<mapsto> AString ''iso''] = ''tank''"
    by (simp_all add: item_name_def index_def nfs_item_def)
  have c: "nfs_item ''content'' = Some (ASlice [AFloat64 0, AString ''images'', AString ''iso''])"
    by (simp add: nfs_item_def)
  from content_check_total [of Map.empty]
    content_check_total [of "[''content'' \<mapsto> AString ''iso'']"]
    content_check_total
      [of "[''content'' \<mapsto> ASlice [AFloat64 0, AMap Map.empty, AString ''images'']]"]
    content_check_total [of "[''content'' \<mapsto> ASlice [AFloat64 0, ANil, AString ''iso'']]"]
    content_check_total [of nfs_item _ _ _ _ _ "[]"]
    content_check_total
      [of "[''storage'' \<mapsto> AString ''tank'', ''content'' \<mapsto> AString ''iso'']" _ _ _ _ _ "[nfs_item]"]
  show ?thesis using n c by simp
qed

section \<open>ISO presence check\<close>

text \<open>
  C2: for every decoded content listing, \<open>storageHasISO\<close> returns true if and only if some
  record has a string-typed \<^verbatim>\<open>volid\<close> that equals the target filename or ends with it, or a
  string-typed \<^verbatim>\<open>name\<close> equal to the target filename.  Within a record the \<^verbatim>\<open>volid\<close> rule
  comes before the \<^verbatim>\<open>name\<close> rule, and a match of either decides the result at that record,
  whatever the rest of the listing holds.
\<close>

theorem storage_has_iso_iff:
  assumes "Get client (''/nodes/'' @ node @ ''/storage/'' @ storage @ ''/content'') = Inr raw"
    and "Unmarshal_items js raw = Inr items"
  shows "storageHasISO client js node storage isoName
           = Inr (\<exists>it \<in> set items. volid_rule isoName it \<or> name_rule isoName it) \<and>
         iso_loop isoName (it # rest) =
           (if volid_rule isoName it then True
            else if name_rule isoName it then True
            else iso_loop isoName rest)"
  using assms by (simp add: storageHasISO_def iso_loop_iff iso_loop_step del: iso_loop.simps)

theorem storage_has_iso_iff_witness:
  "Get (answering ''body'') (''/nodes/'' @ ''pve'' @ ''/storage/'' @ ''local'' @ ''/content'')
     = Inr ''body'' \<and>
   Unmarshal_items (decoding [debian_entry, ubuntu_entry] Map.empty) ''body''
     = Inr [debian_entry, ubuntu_entry] \<and>
   volid_rule ''ubuntu.iso'' ubuntu_entry \<and>
   name_rule ''debian.iso'' debian_entry \<and>
   storageHasISO (answering ''body'') (decoding [debian_entry, ubuntu_entry] Map.empty)
     ''pve'' ''local'' ''ubuntu.iso'' = Inr True \<and>
   storageHasISO (answering ''body'') (decoding [debian_entry, ubuntu_entry] Map.empty)
     ''pve'' ''local'' ''debian.iso'' = Inr True \<and>
   storageHasISO (answering ''body'') (decoding [debian_entry, ubuntu_entry] Map.empty)
     ''pve'' ''local'' ''fedora.iso'' = Inr False"
proof -
  have g: "Get (answering ''body'') (''/nodes/'' @ ''pve'' @ ''/storage/'' @ ''local'' @ ''/content'')
             = Inr ''body''"
    by (simp add: answering_def)
  have u: "Unmarshal_items (decoding [debian_entry, ubuntu_entry] Map.empty) ''body''
             = Inr [debian_entry, ubuntu_entry]"
    by (simp add: decoding_def)
  have s: "suffix ''ubuntu.iso'' ''local:iso/ubuntu.iso''"
    by (rule suffixI [of _ "''local:iso/''"]) simp
  have ns: "\<not> suffix ''debian.iso'' ''local:iso/ubuntu.iso''"
    "\<not> suffix ''fedora.iso'' ''local:iso/ubuntu.iso''"
    by (simp_all add: HasSuffix_suffix [symmetric] HasSuffix_def)
  have r: "volid_rule ''ubuntu.iso'' ubuntu_entry" "name_rule ''debian.iso'' debian_entry"
    "\<not> volid_rule ''fedora.iso'' ubuntu_entry" "\<not> name_rule ''fedora.iso'' ubuntu_entry"
    "\<not> volid_rule ''fedora.iso'' debian_entry" "\<not> name_rule ''fedora.iso'' debian_entry"
    by (simp_all add: volid_rule_def name_rule_def ubuntu_entry_def debian_entry_def s ns)
  from storage_has_iso_iff [OF g u, of "''ubuntu.iso''"]
    storage_has_iso_iff [OF g u, of "''debian.iso''"]
    storage_has_iso_iff [OF g u, of "''fedora.iso''"]
  show ?thesis using g u r by simp
qed

text \<open>
  C7: for every decoded content listing, empty or not, in which no record matches the target
  filename under either rule, \<open>storageHasISO\<close> returns false and no error.  The only errors
  \<open>storageHasISO\<close> ever returns are the error of the read call, unchanged, and the wrapped
  error of the decoding.
\<close>

theorem absent_iso_is_false:
  "(Get client (''/nodes/'' @ node @ ''/storage/'' @ storage @ ''/content'') = Inr raw \<and>
    Unmarshal_items js raw = Inr items \<and>
    (\<forall>it \<in> set items. \<not> volid_rule isoName it \<and> \<not> name_rule isoName it)
      \<longrightarrow> storageHasISO client js node storage isoName = Inr False) \<and>
   (\<forall>err. storageHasISO client js node storage isoName = Inl err
      \<longrightarrow> (\<exists>cause. Get client (''/nodes/'' @ node @ ''/storage/'' @ storage @ ''/content'')
                        = Inl cause \<and>
                      err = Propagated cause)
          \<or> (\<exists>body cause. Get client (''/nodes/'' @ node @ ''/storage/'' @ storage @ ''/content'')
                             = Inr body \<and>
                           Unmarshal_items js body = Inl cause \<and>
                           err = Wrapped ''failed to parse storage content: '' cause))"
  by (auto simp: storageHasISO_def iso_loop_iff split: sum.splits)

theorem absent_iso_is_false_witness:
  "Get (answering ''body'') (''/nodes/'' @ ''pve'' @ ''/storage/'' @ ''local'' @ ''/content'')
     = Inr ''body'' \<and>
   Unmarshal_items (decoding [] Map.empty) ''body'' = Inr [] \<and>
   Unmarshal_items (decoding [debian_entry, ubuntu_entry] Map.empty) ''body''
     = Inr [debian_entry, ubuntu_entry] \<and>
   \<not> volid_rule ''fedora.iso'' debian_entry \<and> \<not> name_rule ''fedora.iso'' debian_entry \<and>
   \<not> volid_rule ''fedora.iso'' ubuntu_entry \<and> \<not> name_rule ''fedora.iso'' ubuntu_entry \<and>
   storageHasISO (answering ''body'') (decoding [] Map.empty) ''pve'' ''local'' ''fedora.iso''
     = Inr False \<and>
   storageHasISO (answering ''body'') (decoding [debian_entry, ubuntu_entry] Map.empty)
     ''pve'' ''local'' ''fedora.iso'' = Inr False \<and>
   storageHasISO (failing ''timeout'') (decoding [] Map.empty) ''pve'' ''local'' ''fedora.iso''
     = Inl (Propagated ''timeout'') \<and>
   storageHasISO (answering ''body'') (rejecting ''bad json'') ''pve'' ''local'' ''fedora.iso''
     = Inl (Wrapped ''failed to parse storage content: '' ''bad json'')"
proof -
  have g: "Get (answering ''body'') (''/nodes/'' @ ''pve'' @ ''/storage/'' @ ''local'' @ ''/content'')
             = Inr ''body''"
    by (simp add: answering_def)
  have u: "Unmarshal_items (decoding [] Map.empty) ''body'' = Inr []"
    "Unmarshal_items (decoding [debian_entry, ubuntu_entry] Map.empty) ''body''
       = Inr [debian_entry, ubuntu_entry]"
    by (simp_all add: decoding_def)
  have ns: "\<not> suffix ''fedora.iso'' ''local:iso/ubuntu.iso''"
    by (simp add: HasSuffix_suffix [symmetric] HasSuffix_def)
  have r: "\<not> volid_rule ''fedora.iso'' debian_entry" "\<not> name_rule ''fedora.iso'' debian_entry"
    "\<not> volid_rule ''fedora.iso'' ubuntu_entry" "\<not> name_rule ''fedora.iso'' ubuntu_entry"
    by (simp_all add: volid_rule_def name_rule_def ubuntu_entry_def debian_entry_def ns)
  have e: "storageHasISO (failing ''timeout'') (decoding [] Map.empty) ''pve'' ''local'' ''fedora.iso''
             = Inl (Propagated ''timeout'')"
    "storageHasISO (answering ''body'') (rejecting ''bad json'') ''pve'' ''local'' ''fedora.iso''
       = Inl (Wrapped ''failed to parse storage content: '' ''bad json'')"
    by (simp_all add: storageHasISO_def failing_def answering_def rejecting_def)
  from absent_iso_is_false
         [of "answering ''body''" "''pve''" "''local''" "''body''" "decoding [] Map.empty" "[]"
             "''fedora.iso''"]
    absent_iso_is_false
         [of "answering ''body''" "''pve''" "''local''" "''body''"
             "decoding [debian_entry, ubuntu_entry] Map.empty" "[debian_entry, ubuntu_entry]"
             "''fedora.iso''"]
  show ?thesis using g u r e by simp
qed

text \<open>
  C9: with the empty string as target filename, \<open>storageHasISO\<close> returns true for every
  decoded content listing in which some record has a string-typed \<^verbatim>\<open>volid\<close>, whatever its
  value: \<^verbatim>\<open>strings.HasSuffix\<close> holds of every string and the empty suffix.
\<close>

theorem empty_target_matches_any_volid:
  assumes "Get client (''/nodes/'' @ node @ ''/storage/'' @ storage @ ''/content'') = Inr raw"
    and "Unmarshal_items js raw = Inr items"
    and "it \<in> set items" and "it ''volid'' = Some (AString v)"
  shows "HasSuffix v [] \<and> storageHasISO client js node storage [] = Inr True"
proof -
  have "volid_rule [] it"
    using assms(4) by (simp add: volid_rule_def)
  with assms(3) have "iso_loop [] items"
    unfolding iso_loop_iff by blast
  with assms(1,2) show ?thesis
    by (simp add: storageHasISO_def HasSuffix_def)
qed

theorem empty_target_matches_any_volid_witness:
  "Get (answering ''body'') (''/nodes/'' @ ''pve'' @ ''/storage/'' @ ''local'' @ ''/content'')
     = Inr ''body'' \<and>
   Unmarshal_items (decoding [debian_entry, ubuntu_entry] Map.empty) ''body''
     = Inr [debian_entry, ubuntu_entry] \<and>
   ubuntu_entry \<in> set [debian_entry, ubuntu_entry] \<and>
   ubuntu_entry ''volid'' = Some (AString ''local:iso/ubuntu.iso'') \<and>
   storageHasISO (answering ''body'') (decoding [debian_entry, ubuntu_entry] Map.empty)
     ''pve'' ''local'' [] = Inr True"
proof -
  have g: "Get (answering ''body'') (''/nodes/'' @ ''pve'' @ ''/storage/'' @ ''local'' @ ''/content'')
             = Inr ''body''"
    by (simp add: answering_def)
  have u: "Unmarshal_items (decoding [debian_entry, ubuntu_entry] Map.empty) ''body''
             = Inr [debian_entry, ubuntu_entry]"
    by (simp add: decoding_def)
  have m: "ubuntu_entry \<in> set [debian_entry, ubuntu_entry]"
    by simp
  have v: "ubuntu_entry ''volid'' = Some (AString ''local:iso/ubuntu.iso'')"
    by (simp add: ubuntu_entry_def)
  from empty_target_matches_any_volid [OF g u m v]
  show ?thesis using g u m v by simp
qed

section \<open>Download initiation\<close>

text \<open>
  C3: for every decoded download response, \<open>startStorageDownload\<close> returns the value of
  \<^verbatim>\<open>data\<close> unchanged when it is a string, and the value of the nested \<^verbatim>\<open>upid\<close> when
  \<^verbatim>\<open>data\<close> is a record with a string-typed \<^verbatim>\<open>upid\<close>.
\<close>

theorem download_returns_upid:
  assumes "Post client (''/nodes/'' @ node @ ''/storage/'' @ storage @ ''/download'')
             [''content'' \<mapsto> ''iso'', ''filename'' \<mapsto> isoName, ''url'' \<mapsto> sourceURL] = Inr resp"
    and "Unmarshal_wrapper js resp = Inr wrapper"
  shows "(wrapper ''data'' = Some (AString v)
            \<longrightarrow> startStorageDownload client js node storage isoName sourceURL = Inr v) \<and>
         (wrapper ''data'' = Some (AMap m) \<and> m ''upid'' = Some (AString u)
            \<longrightarrow> startStorageDownload client js node storage isoName sourceURL = Inr u)"
  using assms by (simp add: startStorageDownload_def data_upid_def index_def)

theorem download_returns_upid_witness:
  "Post (answering ''body'') (''/nodes/'' @ ''pve'' @ ''/storage/'' @ ''local'' @ ''/download'')
     [''content'' \<mapsto> ''iso'', ''filename'' \<mapsto> ''ubuntu.iso'', ''url'' \<mapsto> ''http://mirror/ubuntu.iso'']
     = Inr ''body'' \<and>
   Unmarshal_wrapper (decoding [] [''data'' \<mapsto> AString ''UPID:pve:0001:'']) ''body''
     = Inr [''data'' \<mapsto> AString ''UPID:pve:0001:''] \<and>
   Unmarshal_wrapper (decoding [] [''data'' \<mapsto> AMap [''upid'' \<mapsto> AString ''UPID:pve:0002:'']]) ''body''
     = Inr [''data'' \<mapsto> AMap [''upid'' \<mapsto> AString ''UPID:pve:0002:'']] \<and>
   startStorageDownload (answering ''body'') (decoding [] [''data'' \<mapsto> AString ''UPID:pve:0001:''])
     ''pve'' ''local'' ''ubuntu.iso'' ''http://mirror/ubuntu.iso'' = Inr ''UPID:pve:0001:'' \<and>
   startStorageDownload (answering ''body'')
     (decoding [] [''data'' \<mapsto> AMap [''upid'' \<mapsto> AString ''UPID:pve:0002:'']])
     ''pve'' ''local'' ''ubuntu.iso'' ''http://mirror/ubuntu.iso'' = Inr ''UPID:pve:0002:''"
proof -
  have p: "Post (answering ''body'') (''/nodes/'' @ ''pve'' @ ''/storage/'' @ ''local'' @ ''/download'')
             [''content'' \<mapsto> ''iso'', ''filename'' \<mapsto> ''ubuntu.iso'',
              ''url'' \<mapsto> ''http://mirror/ubuntu.iso''] = Inr ''body''"
    by (simp add: answering_def)
  have u1: "Unmarshal_wrapper (decoding [] [''data'' \<mapsto> AString ''UPID:pve:0001:'']) ''body''
              = Inr [''data'' \<mapsto> AString ''UPID:pve:0001:'']"
    by (simp add: decoding_def)
  have u2: "Unmarshal_wrapper (decoding [] [''data'' \<mapsto> AMap [''upid'' \<mapsto> AString ''UPID:pve:0002:'']])
              ''body'' = Inr [''data'' \<mapsto> AMap [''upid'' \<mapsto> AString ''UPID:pve:0002:'']]"
    by (simp add: decoding_def)
  from download_returns_upid [OF p u1, of "''UPID:pve:0001:''"]
    download_returns_upid
      [OF p u2, of _ "[''upid'' \<mapsto> AString ''UPID:pve:0002:'']" "''UPID:pve:0002:''"]
  show ?thesis using p u1 u2 by simp
qed

text \<open>
  C5: for every decoded download response in which \<^verbatim>\<open>data\<close> is absent, or is neither a string
  nor a record, or is a record with no string-typed \<^verbatim>\<open>upid\<close>, \<open>startStorageDownload\<close> returns
  no task identifier and fails with the error of line 118, which carries the whole decoded
  payload as the operand of \<^verbatim>\<open>%v\<close>.
\<close>

theorem download_unexpected_payload:
  assumes "Post client (''/nodes/'' @ node @ ''/storage/'' @ storage @ ''/download'')
             [''content'' \<mapsto> ''iso'', ''filename'' \<mapsto> isoName, ''url'' \<mapsto> sourceURL] = Inr resp"
    and "Unmarshal_wrapper js resp = Inr wrapper"
    and "wrapper ''data'' = None
         \<or> (\<exists>d. wrapper ''data'' = Some d \<and> (\<forall>s. d \<noteq> AString s) \<and> (\<forall>m. d \<noteq> AMap m))
         \<or> (\<exists>m. wrapper ''data'' = Some (AMap m) \<and> (\<forall>u. m ''upid'' \<noteq> Some (AString u)))"
  shows "startStorageDownload client js node storage isoName sourceURL
           = Inl (ErrorValue ''unexpected download response: '' wrapper)"
proof -
  have nostr: "assert_string (index m ''upid'') = None"
    if "\<forall>u. m ''upid'' \<noteq> Some (AString u)" for m :: object
  proof (cases "m ''upid''")
    case None
    then show ?thesis by (simp add: index_def)
  next
    case (Some x)
    with that show ?thesis by (cases x) (simp_all add: index_def)
  qed
  have "data_upid wrapper = None"
    using assms(3)
  proof (elim disjE exE conjE)
    assume "wrapper ''data'' = None"
    then show ?thesis by (simp add: data_upid_def)
  next
    fix d
    assume "wrapper ''data'' = Some d" "\<forall>s. d \<noteq> AString s" "\<forall>m. d \<noteq> AMap m"
    then show ?thesis by (cases d) (simp_all add: data_upid_def)
  next
    fix m
    assume "wrapper ''data'' = Some (AMap m)" "\<forall>u. m ''upid'' \<noteq> Some (AString u)"
    then show ?thesis by (simp add: data_upid_def nostr)
  qed
  with assms(1,2) show ?thesis
    by (simp add: startStorageDownload_def)
qed

theorem download_unexpected_payload_witness:
  "Post (answering ''body'') (''/nodes/'' @ ''pve'' @ ''/storage/'' @ ''local'' @ ''/download'')
     [''content'' \<mapsto> ''iso'', ''filename'' \<mapsto> ''ubuntu.iso'', ''url'' \<mapsto> ''http://mirror/ubuntu.iso'']
     = Inr ''body'' \<and>
   Unmarshal_wrapper (decoding [] Map.empty) ''body'' = Inr Map.empty \<and>
   Unmarshal_wrapper (decoding [] [''data'' \<mapsto> AFloat64 1]) ''body'' = Inr [''data'' \<mapsto> AFloat64 1] \<and>
   Unmarshal_wrapper (decoding [] [''data'' \<mapsto> AMap [''upid'' \<mapsto> ANil]]) ''body''
     = Inr [''data'' \<mapsto> AMap [''upid'' \<mapsto> ANil]] \<and>
   startStorageDownload (answering ''body'') (decoding [] Map.empty)
     ''pve'' ''local'' ''ubuntu.iso'' ''http://mirror/ubuntu.iso''
     = Inl (ErrorValue ''unexpected download response: '' Map.empty) \<and>
   startStorageDownload (answering ''body'') (decoding [] [''data'' \<mapsto> AFloat64 1])
     ''pve'' ''local'' ''ubuntu.iso'' ''http://mirror/ubuntu.iso''
     = Inl (ErrorValue ''unexpected download response: '' [''data'' \<mapsto> AFloat64 1]) \<and>
   startStorageDownload (answering ''body'') (decoding [] [''data'' \<mapsto> AMap [''upid'' \<mapsto> ANil]])
     ''pve'' ''local'' ''ubuntu.iso'' ''http://mirror/ubuntu.iso''
     = Inl (ErrorValue ''unexpected download response: '' [''data'' \<mapsto> AMap [''upid'' \<mapsto> ANil]])"
proof -
  have p: "Post (answering ''body'') (''/nodes/'' @ ''pve'' @ ''/storage/'' @ ''local'' @ ''/download'')
             [''content'' \<mapsto> ''iso'', ''filename'' \<mapsto> ''ubuntu.iso'',
              ''url'' \<mapsto> ''http://mirror/ubuntu.iso''] = Inr ''body''"
    by (simp add: answering_def)
  have u0: "Unmarshal_wrapper (decoding [] Map.empty) ''body'' = Inr Map.empty"
    by (simp add: decoding_def)
  have u1: "Unmarshal_wrapper (decoding [] [''data'' \<mapsto> AFloat64 1]) ''body''
              = Inr [''data'' \<mapsto> AFloat64 1]"
    by (simp add: decoding_def)
  have u2: "Unmarshal_wrapper (decoding [] [''data'' \<mapsto> AMap [''upid'' \<mapsto> ANil]]) ''body''
              = Inr [''data'' \<mapsto> AMap [''upid'' \<mapsto> ANil]]"
    by (simp add: decoding_def)
  have h0: "(Map.empty :: object) ''data'' = None
         \<or> (\<exists>d. (Map.empty :: object) ''data'' = Some d \<and> (\<forall>s. d \<noteq> AString s) \<and> (\<forall>m. d \<noteq> AMap m))
         \<or> (\<exists>m. (Map.empty :: object) ''data'' = Some (AMap m) \<and> (\<forall>u. m ''upid'' \<noteq> Some (AString u)))"
    by simp
  have h1: "[''data'' \<mapsto> AFloat64 1] ''data'' = None
         \<or> (\<exists>d. [''data'' \<mapsto> AFloat64 1] ''data'' = Some d \<and> (\<forall>s. d \<noteq> AString s) \<and> (\<forall>m. d \<noteq> AMap m))
         \<or> (\<exists>m. [''data'' \<mapsto> AFloat64 1] ''data'' = Some (AMap m) \<and> (\<forall>u. m ''upid'' \<noteq> Some (AString u)))"
    by simp
  have h2: "[''data'' \<mapsto> AMap [''upid'' \<mapsto> ANil]] ''data'' = None
         \<or> (\<exists>d. [''data'' \<mapsto> AMap [''upid'' \<mapsto> ANil]] ''data'' = Some d
                \<and> (\<forall>s. d \<noteq> AString s) \<and> (\<forall>m. d \<noteq> AMap m))
         \<or> (\<exists>m. [''data'' \<mapsto> AMap [''upid'' \<mapsto> ANil]] ''data'' = Some (AMap m)
                \<and> (\<forall>u. m ''upid'' \<noteq> Some (AString u)))"
    by simp
  note r = download_unexpected_payload [OF p u0 h0] download_unexpected_payload [OF p u1 h1]
    download_unexpected_payload [OF p u2 h2]
  show ?thesis by (intro conjI) (rule p u0 u1 u2 r)+
qed

section \<open>Decode failures\<close>

text \<open>
  C8: in each of the three operations, when the call succeeds and \<^verbatim>\<open>json.Unmarshal\<close> rejects
  the body, the operation fails with an error built by \<^verbatim>\<open>%w\<close>: a message that names what
  could not be parsed, and the decoder's own error as the cause \<^verbatim>\<open>errors.Unwrap\<close> gives back.
\<close>

theorem decode_failure_wraps_cause:
  "(Get client (''/nodes/'' @ node @ ''/storage'') = Inr raw \<and>
    Unmarshal_items js raw = Inl cause
      \<longrightarrow> (\<exists>err. findISOStorageName client js node = Inl err \<and>
                  err = Wrapped ''failed to parse storage list: '' cause \<and>
                  Unwrap err = Some cause)) \<and>
   (Get client (''/nodes/'' @ node @ ''/storage/'' @ storage @ ''/content'') = Inr raw \<and>
    Unmarshal_items js raw = Inl cause
      \<longrightarrow> (\<exists>err. storageHasISO client js node storage isoName = Inl err \<and>
                  err = Wrapped ''failed to parse storage content: '' cause \<and>
                  Unwrap err = Some cause)) \<and>
   (Post client (''/nodes/'' @ node @ ''/storage/'' @ storage @ ''/download'')
      [''content'' \<mapsto> ''iso'', ''filename'' \<mapsto> isoName, ''url'' \<mapsto> sourceURL] = Inr raw \<and>
    Unmarshal_wrapper js raw = Inl cause
      \<longrightarrow> (\<exists>err. startStorageDownload client js node storage isoName sourceURL = Inl err \<and>
                  err = Wrapped ''failed to parse download response: '' cause \<and>
                  Unwrap err = Some cause))"
proof (intro conjI impI)
  assume "Get client (''/nodes/'' @ node @ ''/storage'') = Inr raw \<and>
          Unmarshal_items js raw = Inl cause"
  then show "\<exists>err. findISOStorageName client js node = Inl err \<and>
                   err = Wrapped ''failed to parse storage list: '' cause \<and>
                   Unwrap err = Some cause"
    by (simp add: findISOStorageName_def)
next
  assume "Get client (''/nodes/'' @ node @ ''/storage/'' @ storage @ ''/content'') = Inr raw \<and>
          Unmarshal_items js raw = Inl cause"
  then show "\<exists>err. storageHasISO client js node storage isoName = Inl err \<and>
                   err = Wrapped ''failed to parse storage content: '' cause \<and>
                   Unwrap err = Some cause"
    by (simp add: storageHasISO_def)
next
  assume "Post client (''/nodes/'' @ node @ ''/storage/'' @ storage @ ''/download'')
            [''content'' \<mapsto> ''iso'', ''filename'' \<mapsto> isoName, ''url'' \<mapsto> sourceURL] = Inr raw \<and>
          Unmarshal_wrapper js raw = Inl cause"
  then show "\<exists>err. startStorageDownload client js node storage isoName sourceURL = Inl err \<and>
                   err = Wrapped ''failed to parse download response: '' cause \<and>
                   Unwrap err = Some cause"
    by (simp add: startStorageDownload_def)
qed

theorem decode_failure_wraps_cause_witness:
  "Get (answering ''<html>'') (''/nodes/'' @ ''pve'' @ ''/storage'') = Inr ''<html>'' \<and>
   Get (answering ''<html>'') (''/nodes/'' @ ''pve'' @ ''/storage/'' @ ''local'' @ ''/content'')
     = Inr ''<html>'' \<and>
   Post (answering ''<html>'') (''/nodes/'' @ ''pve'' @ ''/storage/'' @ ''local'' @ ''/download'')
     [''content'' \<mapsto> ''iso'', ''filename'' \<mapsto> ''ubuntu.iso'', ''url'' \<mapsto> ''http://mirror/ubuntu.iso'']
     = Inr ''<html>'' \<and>
   Unmarshal_items (rejecting ''invalid character'') ''<html>'' = Inl ''invalid character'' \<and>
   Unmarshal_wrapper (rejecting ''invalid character'') ''<html>'' = Inl ''invalid character'' \<and>
   findISOStorageName (answering ''<html>'') (rejecting ''invalid character'') ''pve''
     = Inl (Wrapped ''failed to parse storage list: '' ''invalid character'') \<and>
   storageHasISO (answering ''<html>'') (rejecting ''invalid character'') ''pve'' ''local'' ''ubuntu.iso''
     = Inl (Wrapped ''failed to parse storage content: '' ''invalid character'') \<and>
   startStorageDownload (answering ''<html>'') (rejecting ''invalid character'')
     ''pve'' ''local'' ''ubuntu.iso'' ''http://mirror/ubuntu.iso''
     = Inl (Wrapped ''failed to parse download response: '' ''invalid character'') \<and>
   Unwrap (Wrapped ''failed to parse storage list: '' ''invalid character'') = Some ''invalid character''"
proof -
  have g: "Get (answering ''<html>'') (''/nodes/'' @ ''pve'' @ ''/storage'') = Inr ''<html>''"
    "Get (answering ''<html>'') (''/nodes/'' @ ''pve'' @ ''/storage/'' @ ''local'' @ ''/content'')
       = Inr ''<html>''"
    "Post (answering ''<html>'') (''/nodes/'' @ ''pve'' @ ''/storage/'' @ ''local'' @ ''/download'')
       [''content'' \<mapsto> ''iso'', ''filename'' \<mapsto> ''ubuntu.iso'',
        ''url'' \<mapsto> ''http://mirror/ubuntu.iso''] = Inr ''<html>''"
    by (simp_all add: answering_def)
  have u: "Unmarshal_items (rejecting ''invalid character'') ''<html>'' = Inl ''invalid character''"
    "Unmarshal_wrapper (rejecting ''invalid character'') ''<html>'' = Inl ''invalid character''"
    by (simp_all add: rejecting_def)
  from decode_failure_wraps_cause
         [of "answering ''<html>''" "''pve''" "''<html>''" "rejecting ''invalid character''"
             "''invalid character''" "''local''" "''ubuntu.iso''" "''http://mirror/ubuntu.iso''"]
  have "findISOStorageName (answering ''<html>'') (rejecting ''invalid character'') ''pve''
          = Inl (Wrapped ''failed to parse storage list: '' ''invalid character'')"
    and "storageHasISO (answering ''<html>'') (rejecting ''invalid character'')
           ''pve'' ''local'' ''ubuntu.iso''
          = Inl (Wrapped ''failed to parse storage content: '' ''invalid character'')"
    and "startStorageDownload (answering ''<html>'') (rejecting ''invalid character'')
           ''pve'' ''local'' ''ubuntu.iso'' ''http://mirror/ubuntu.iso''
          = Inl (Wrapped ''failed to parse download response: '' ''invalid character'')"
    using g u by simp_all
  then show ?thesis using g u by simp
qed


end
